theory Spec2Isabelle
  imports Main "HOL-Library.Word" "HOL-Library.AList"
begin

unbundle bit_operations_syntax

section \<open>The assembler and interpreter of script.py\<close>

text \<open>
  The program is Python, so its integers are unbounded and are modelled as \<open>int\<close>;
  \<open>&\<close>, \<open>|\<close>, \<open><<\<close> and \<open>>>\<close> are \<open>AND\<close>, \<open>OR\<close>, \<open>push_bit\<close> and \<open>drop_bit\<close> on
  \<open>int\<close> (two's complement of unbounded width, as in Python). Exceptions are values of
  the type \<open>error\<close>. The module-level list \<open>memory\<close> is state that outlives a call of
  \<open>interpreter\<close>, so the model of \<open>interpreter\<close> takes it as an argument and returns it.
\<close>

subsection \<open>Exceptions\<close>

text \<open>
  The four \<open>ValueError\<close>s the program raises itself are told apart by their message;
  the two messages of the assembler carry the 1-based line number and the line.
  \<open>struct_error\<close> is \<open>struct.error\<close>, \<open>IndexError\<close> is what a list raises for an index
  outside its bounds.
\<close>

datatype message =
    Invalid_instruction_format nat string
  | Invalid_hex_value nat string
  | Addresses_must_be_in_range
  | Binary_file_is_empty

datatype error = FileNotFoundError | ValueError message | struct_error | IndexError

subsection \<open>Bit fields (lines 6-21 and 56)\<close>

definition COMMAND_MASK :: int where
  "COMMAND_MASK = 31"

definition REGISTER_MASK :: int where
  "REGISTER_MASK = 63"

definition ADDRESS_MASK :: int where
  "ADDRESS_MASK = 4294967295"

definition extract_fields :: "int \<Rightarrow> int \<times> int \<times> int" where
  "extract_fields instruction =
     (let A = instruction AND COMMAND_MASK;
          B = (drop_bit 5 instruction) AND REGISTER_MASK;
          C = drop_bit 11 instruction
      in (A, B, C))"

text \<open>
  Line 56 of \<open>assembler\<close>, the only place where a word is built:
  \<open>instruction = (operand2 << 11) | (operand1 << 5) | command\<close>.
\<close>

definition encode :: "int \<Rightarrow> int \<Rightarrow> int \<Rightarrow> int" where
  "encode command operand1 operand2 =
     (push_bit 11 operand2) OR (push_bit 5 operand1) OR command"

text \<open>The field triples of the format: 5, 6 and 21 bits.\<close>

definition field_triple :: "int \<Rightarrow> int \<Rightarrow> int \<Rightarrow> bool" where
  "field_triple A B C \<longleftrightarrow>
     0 \<le> A \<and> A < 32 \<and> 0 \<le> B \<and> B < 64 \<and> 0 \<le> C \<and> C < 2097152"

subsection \<open>Text of a listing line (lines 43, 46, 50-52)\<close>

text \<open>
  A character is a code point below 256. \<open>isspace\<close> holds of those that \<open>str.strip\<close> and
  \<open>str.split\<close> treat as whitespace: codes 9 to 13, 28 to 31, 32, 133 and 160.
\<close>

definition isspace :: "char \<Rightarrow> bool" where
  "isspace c \<longleftrightarrow>
     (let n = (of_char c :: nat)
      in (9 \<le> n \<and> n \<le> 13) \<or> (28 \<le> n \<and> n \<le> 31) \<or> n = 32 \<or> n = 133 \<or> n = 160)"


text \<open>\<open>line.split()\<close>: the maximal runs of characters that are not whitespace.\<close>

fun split_from :: "string \<Rightarrow> string \<Rightarrow> string list" where
  "split_from cur [] = (if cur = [] then [] else [cur])"
| "split_from cur (c # cs) =
     (if isspace c then (if cur = [] then split_from [] cs else cur # split_from [] cs)
      else split_from (cur @ [c]) cs)"

definition split :: "string \<Rightarrow> string list" where
  "split s = split_from [] s"






subsection \<open>Four-byte words (lines 64 and 95)\<close>

text \<open>
  \<open>struct.pack('I', instr)\<close> and \<open>struct.unpack('I', b)\<close>: an unsigned 32-bit word in four
  bytes, least significant byte first. Packing a value outside \<open>[0, 2^32)\<close> and unpacking
  a buffer that is not four bytes long raise \<open>struct.error\<close>.
\<close>

type_synonym byte = "8 word"

definition struct_pack_I :: "int \<Rightarrow> error + byte list" where
  "struct_pack_I instr =
     (if 0 \<le> instr \<and> instr < 4294967296
      then Inr [word_of_int instr, word_of_int (drop_bit 8 instr),
                word_of_int (drop_bit 16 instr), word_of_int (drop_bit 24 instr)]
      else Inl struct_error)"

definition struct_unpack_I :: "byte list \<Rightarrow> error + int" where
  "struct_unpack_I b =
     (if length b \<noteq> 4 then Inl struct_error
      else Inr (uint (b ! 0) + 256 * uint (b ! 1) + 65536 * uint (b ! 2)
                + 16777216 * uint (b ! 3)))"

subsection \<open>The assembler (lines 24-70)\<close>



text \<open>
  Lines 62-64: the bytes that reach the binary file, and the exception that ends the
  writing if a word does not fit four bytes.
\<close>

fun write_instructions :: "int list \<Rightarrow> error option \<times> byte list" where
  "write_instructions [] = (None, [])"
| "write_instructions (instr # rest) =
     (case struct_pack_I instr of
        Inl e \<Rightarrow> (Some e, [])
      | Inr b \<Rightarrow> (case write_instructions rest of (r, written) \<Rightarrow> (r, b @ written)))"



subsection \<open>Numerals and malformed lines, in words\<close>







subsection \<open>Lists with Python's indexing\<close>

text \<open>
  \<open>xs[i]\<close> and \<open>xs[i] = v\<close>: a negative index counts from the end, and an index outside
  the list raises \<open>IndexError\<close>.
\<close>

definition getitem :: "int list \<Rightarrow> int \<Rightarrow> error + int" where
  "getitem xs i =
     (let n = int (length xs); j = (if i < 0 then i + n else i)
      in if 0 \<le> j \<and> j < n then Inr (xs ! nat j) else Inl IndexError)"

definition setitem :: "int list \<Rightarrow> int \<Rightarrow> int \<Rightarrow> error + int list" where
  "setitem xs i v =
     (let n = int (length xs); j = (if i < 0 then i + n else i)
      in if 0 \<le> j \<and> j < n then Inr (xs[nat j := v]) else Inl IndexError)"

subsection \<open>The interpreter (lines 11 and 73-124)\<close>

text \<open>Line 11: the list \<open>memory\<close> as the module creates it when it is loaded.\<close>

definition memory_init :: "int list" where
  "memory_init = replicate 1024 0"

text \<open>
  The state of the loop of lines 99-115: the local list \<open>register\<close>, the global list
  \<open>memory\<close>, the dictionary \<open>result\<close> as the list of its entries in insertion order (the
  key \<open>register_<B>\<close> as \<open>B\<close>), and \<open>trace\<close>, the field triples that line 101 has
  printed, one for each instruction that was dispatched.
\<close>

record vm =
  register :: "int list"
  memory :: "int list"
  result :: "(int \<times> int) list"
  trace :: "(int \<times> int \<times> int) list"

text \<open>
  Lines 102-113: the effect of the instruction on \<open>register\<close> and \<open>memory\<close>, or the
  exception of the list access. In every branch the right-hand side is evaluated before
  the store.
\<close>

definition dispatch :: "int \<Rightarrow> int \<Rightarrow> int \<Rightarrow> vm \<Rightarrow> error + vm" where
  "dispatch A B C s =
     (if A = 6 then
        (case setitem (register s) B C of
           Inl e \<Rightarrow> Inl e
         | Inr r \<Rightarrow> Inr (s\<lparr>register := r\<rparr>))
      else if A = 8 then
        (case getitem (memory s) C of
           Inl e \<Rightarrow> Inl e
         | Inr v \<Rightarrow>
             (case setitem (register s) B v of
                Inl e \<Rightarrow> Inl e
              | Inr r \<Rightarrow> Inr (s\<lparr>register := r\<rparr>)))
      else if A = 25 then
        (case getitem (register s) B of
           Inl e \<Rightarrow> Inl e
         | Inr v \<Rightarrow>
             (case setitem (memory s) C v of
                Inl e \<Rightarrow> Inl e
              | Inr m \<Rightarrow> Inr (s\<lparr>memory := m\<rparr>)))
      else if A = 10 then
        (case getitem (memory s) C of
           Inl e \<Rightarrow> Inl e
         | Inr v \<Rightarrow>
             (case setitem (register s) B (- v) of
                Inl e \<Rightarrow> Inl e
              | Inr r \<Rightarrow> Inr (s\<lparr>register := r\<rparr>)))
      else Inr s)"

text \<open>
  One iteration, lines 100-115. With an exception comes the state in which it was raised.
\<close>

definition step :: "int \<Rightarrow> vm \<Rightarrow> error option \<times> vm" where
  "step instr s =
     (case extract_fields instr of (A, B, C) \<Rightarrow>
        (let s1 = s\<lparr>trace := trace s @ [(A, B, C)]\<rparr> in
           (case dispatch A B C s1 of
              Inl e \<Rightarrow> (Some e, s1)
            | Inr s2 \<Rightarrow>
                (case getitem (register s2) B of
                   Inl e \<Rightarrow> (Some e, s2)
                 | Inr v \<Rightarrow> (None, s2\<lparr>result := AList.update B v (result s2)\<rparr>)))))"

fun run :: "int list \<Rightarrow> vm \<Rightarrow> error option \<times> vm" where
  "run [] s = (None, s)"
| "run (instr # rest) s =
     (case step instr s of
        (Some e, s') \<Rightarrow> (Some e, s')
      | (None, s') \<Rightarrow> run rest s')"

text \<open>
  Line 95: the words of the file, four bytes each; the last slice is shorter when the
  length is not a multiple of four, and unpacking it raises.
\<close>

function load_instructions :: "byte list \<Rightarrow> error + int list" where
  "load_instructions binary_data =
     (if binary_data = [] then Inr []
      else
        (case struct_unpack_I (take 4 binary_data) of
           Inl e \<Rightarrow> Inl e
         | Inr w \<Rightarrow>
             (case load_instructions (drop 4 binary_data) of
                Inl e \<Rightarrow> Inl e
              | Inr ws \<Rightarrow> Inr (w # ws))))"
  by pat_completeness auto
termination
  by (relation "measure length") auto

declare load_instructions.simps [simp del]

text \<open>
  Line 118: the cells of the range, the key \<open>0x<addr>\<close> as \<open>addr\<close>. The range has passed
  the check of line 80 when this runs, so every \<open>addr\<close> is an index of \<open>memory\<close>.
\<close>

definition memory_dump :: "int list \<Rightarrow> int \<Rightarrow> int \<Rightarrow> (int \<times> int) list" where
  "memory_dump mem start_address end_address =
     map (\<lambda>addr. (addr, mem ! nat addr)) [start_address..end_address - 1]"

text \<open>
  Lines 83-84: the registers and the result dictionary are created by the call; the
  memory is the global list as the call finds it.
\<close>

definition start_state :: "int list \<Rightarrow> vm" where
  "start_state mem = \<lparr>register = replicate 64 0, memory = mem, result = [], trace = []\<rparr>"

text \<open>
  What a call of \<open>interpreter\<close> leaves: the exception, or the document written to the
  result file (the register entries and the memory entries); the global \<open>memory\<close>; and
  the instructions dispatched. The binary file is given by its bytes, \<open>None\<close> when it does
  not exist.
\<close>

record report =
  outcome :: "error + (int \<times> int) list \<times> (int \<times> int) list"
  memory_after :: "int list"
  dispatched :: "(int \<times> int \<times> int) list"

definition interpreter :: "int list \<Rightarrow> byte list option \<Rightarrow> int \<Rightarrow> int \<Rightarrow> report" where
  "interpreter mem binary_input start_address end_address =
     (if \<not> (0 \<le> start_address \<and> start_address < int (length mem))
         \<or> \<not> (0 \<le> end_address \<and> end_address \<le> int (length mem))
      then \<lparr>outcome = Inl (ValueError Addresses_must_be_in_range),
            memory_after = mem, dispatched = []\<rparr>
      else
        (case binary_input of
           None \<Rightarrow> \<lparr>outcome = Inl FileNotFoundError, memory_after = mem, dispatched = []\<rparr>
         | Some binary_data \<Rightarrow>
             if binary_data = []
             then \<lparr>outcome = Inl (ValueError Binary_file_is_empty),
                   memory_after = mem, dispatched = []\<rparr>
             else
               (case load_instructions binary_data of
                  Inl e \<Rightarrow> \<lparr>outcome = Inl e, memory_after = mem, dispatched = []\<rparr>
                | Inr instructions \<Rightarrow>
                    (case run instructions (start_state mem) of
                       (Some e, s) \<Rightarrow>
                         \<lparr>outcome = Inl e, memory_after = memory s, dispatched = trace s\<rparr>
                     | (None, s) \<Rightarrow>
                         \<lparr>outcome = Inr (result s, memory_dump (memory s) start_address end_address),
                          memory_after = memory s, dispatched = trace s\<rparr>))))"

text \<open>The bytes of a binary file holding the given words.\<close>

definition binary_of :: "int list \<Rightarrow> byte list" where
  "binary_of instructions = snd (write_instructions instructions)"

section \<open>The instruction word\<close>

subsection \<open>The fields as bit ranges\<close>

lemma COMMAND_MASK_mask: "COMMAND_MASK = mask 5"
  by (simp add: COMMAND_MASK_def mask_eq_exp_minus_1)

lemma REGISTER_MASK_mask: "REGISTER_MASK = mask 6"
  by (simp add: REGISTER_MASK_def mask_eq_exp_minus_1)

lemma extract_fields_take_drop:
  "extract_fields w = (take_bit 5 w, take_bit 6 (drop_bit 5 w), drop_bit 11 w)"
  by (simp add: extract_fields_def COMMAND_MASK_mask REGISTER_MASK_mask take_bit_eq_mask)

lemma opcode_of_encode: "take_bit 5 (encode a b c) = take_bit 5 a"
  unfolding encode_def by (rule bit_eqI) (auto simp add: bit_simps)

lemma register_of_encode:
  "take_bit 6 (drop_bit 5 (encode a b c)) = take_bit 6 (b OR drop_bit 5 a)"
  unfolding encode_def by (rule bit_eqI) (auto simp add: bit_simps)

lemma operand_of_encode:
  "drop_bit 11 (encode a b c) = c OR drop_bit 6 b OR drop_bit 11 a"
  unfolding encode_def by (rule bit_eqI) (auto simp add: bit_simps)

lemma extract_fields_encode:
  "extract_fields (encode a b c) =
     (take_bit 5 a, take_bit 6 (b OR drop_bit 5 a), c OR drop_bit 6 b OR drop_bit 11 a)"
  by (simp add: extract_fields_take_drop opcode_of_encode register_of_encode operand_of_encode)

lemma encode_fields: "encode (take_bit 5 w) (take_bit 6 (drop_bit 5 w)) (drop_bit 11 w) = w"
  unfolding encode_def
proof (rule bit_eqI)
  fix n :: nat
  consider "n < 5" | "5 \<le> n" "n < 11" | "11 \<le> n" by linarith
  then show "bit (push_bit 11 (drop_bit 11 w) OR push_bit 5 (take_bit 6 (drop_bit 5 w))
                  OR take_bit 5 w) n = bit w n"
    by cases (auto simp add: bit_simps)
qed

lemma field_triple_extract_fields:
  assumes "0 \<le> w" "w < 4294967296"
  shows "case extract_fields w of (A, B, C) \<Rightarrow> field_triple A B C"
proof -
  have "w div 2048 < 2097152" "0 \<le> w div 2048" using assms by linarith+
  moreover have "take_bit 5 w < 32" "take_bit 6 (drop_bit 5 w) < 64"
    using take_bit_int_less_exp [of 5 w] take_bit_int_less_exp [of 6 "drop_bit 5 w"] by simp_all
  ultimately show ?thesis
    by (simp add: extract_fields_take_drop field_triple_def drop_bit_eq_div)
qed

lemma in_range_fields:
  assumes "field_triple A B C"
  shows "take_bit 5 A = A" "drop_bit 5 A = 0" "drop_bit 11 A = 0"
        "take_bit 6 B = B" "drop_bit 6 B = 0"
  using assms by (simp_all add: field_triple_def take_bit_int_eq_self drop_bit_eq_div)

lemma extract_fields_of_field_triple:
  assumes "field_triple A B C"
  shows "extract_fields (encode A B C) = (A, B, C)"
proof -
  have "take_bit 5 A = A" "drop_bit 5 A = 0" "drop_bit 11 A = 0"
       "take_bit 6 B = B" "drop_bit 6 B = 0"
    using assms by (rule in_range_fields)+
  then show ?thesis
    by (simp only: extract_fields_encode or.right_neutral)
qed

lemma take_bit_5_mod: "take_bit 5 (a::int) = a mod 32"
  by (simp only: take_bit_eq_mod) simp

lemma take_bit_6_mod: "take_bit 6 (a::int) = a mod 64"
  by (simp only: take_bit_eq_mod) simp

lemma drop_bit_5_div: "drop_bit 5 (a::int) = a div 32"
  by (simp only: drop_bit_eq_div) simp

lemma drop_bit_6_div: "drop_bit 6 (a::int) = a div 64"
  by (simp only: drop_bit_eq_div) simp

lemma drop_bit_11_div: "drop_bit 11 (a::int) = a div 2048"
  by (simp only: drop_bit_eq_div) simp

subsection \<open>Decoding after encoding\<close>

text \<open>
  C1. For an opcode \<open>A\<close> in \<open>[0, 32)\<close>, a register \<open>B\<close> in \<open>[0, 64)\<close> and an operand \<open>C\<close> in
  \<open>[0, 2^21)\<close>, \<open>extract_fields\<close> applied to the word \<open>(C << 11) | (B << 5) | A\<close> returns
  exactly \<open>(A, B, C)\<close>.
\<close>

theorem decode_encode_roundtrip:
  assumes "0 \<le> A" "A < 32" "0 \<le> B" "B < 64" "0 \<le> C" "C < 2 ^ 21"
  shows "extract_fields (encode A B C) = (A, B, C)"
proof -
  have "field_triple A B C"
    using assms by (simp add: field_triple_def)
  then show ?thesis
    by (rule extract_fields_of_field_triple)
qed

theorem decode_encode_roundtrip_witness:
  "(0::int) \<le> 6 \<and> (6::int) < 32 \<and> (0::int) \<le> 0 \<and> (0::int) < 64 \<and> (0::int) \<le> 5
   \<and> (5::int) < 2 ^ 21 \<and> extract_fields (encode 6 0 5) = (6, 0, 5)"
  using decode_encode_roundtrip [of 6 0 5] by simp

text \<open>
  C9, as the specification states it: \<open>encode\<close> masks every field to its width, so that
  an opcode of 32 would give the same word as an opcode of 0. The code does not: the word
  of \<open>(32, 0, 0)\<close> is 32, not 0, and it decodes to opcode 0 in register 1.
\<close>

theorem encode_masks_fields_counterexample:
  "encode 32 0 0 \<noteq> encode (32 mod 32) (0 mod 64) (0 mod 2097152)
   \<and> extract_fields (encode 32 0 0) = (0, 1, 0)"
  by (simp add: encode_def extract_fields_def COMMAND_MASK_def REGISTER_MASK_def)

text \<open>
  C9, amended. \<open>encode\<close> neither masks nor rejects a field value that is out of range:
  the word is \<open>(operand << 11) | (register << 5) | opcode\<close> on unbounded integers, so the
  bits of the opcode above its 5 are or-ed into the register and operand fields, and the
  bits of the register above its 6 into the operand field. Decoding the word gives
  \<open>opcode mod 32\<close>, \<open>(register | opcode >> 5) mod 64\<close> and
  \<open>operand | register >> 6 | opcode >> 11\<close>.
\<close>

theorem encode_overflows_into_higher_fields:
  "extract_fields (encode a b c) =
     (a mod 32, (b OR a div 32) mod 64, c OR b div 64 OR a div 2048)"
  by (simp only: extract_fields_encode take_bit_5_mod take_bit_6_mod
        drop_bit_5_div drop_bit_6_div drop_bit_11_div)

subsection \<open>Encoding after decoding\<close>

text \<open>
  C10. For a word \<open>w\<close> in \<open>[0, 2^32)\<close>, encoding the fields that \<open>extract_fields\<close> returns
  gives \<open>w\<close> again; the fields are a field triple (5, 6 and 21 bits), and no other field
  triple encodes to \<open>w\<close>. \<open>extract_fields\<close> has no failing case.
\<close>

theorem encode_decode_reproduces_word:
  assumes "0 \<le> w" "w < 2 ^ 32"
  shows "(case extract_fields w of (A, B, C) \<Rightarrow> encode A B C = w \<and> field_triple A B C) \<and>
         (\<forall>A B C. field_triple A B C \<and> encode A B C = w \<longrightarrow> extract_fields w = (A, B, C))"
proof (intro conjI allI impI)
  have w: "w < 4294967296"
    using assms(2) by simp
  have "encode (take_bit 5 w) (take_bit 6 (drop_bit 5 w)) (drop_bit 11 w) = w"
    by (rule encode_fields)
  moreover have "case extract_fields w of (A, B, C) \<Rightarrow> field_triple A B C"
    using assms(1) w by (rule field_triple_extract_fields)
  ultimately show "case extract_fields w of (A, B, C) \<Rightarrow> encode A B C = w \<and> field_triple A B C"
    by (simp only: extract_fields_take_drop prod.case simp_thms)
next
  fix A B C
  assume "field_triple A B C \<and> encode A B C = w"
  then have ft: "field_triple A B C" and e: "encode A B C = w"
    by (rule conjunct1, rule conjunct2)
  from ft have "extract_fields (encode A B C) = (A, B, C)"
    by (rule extract_fields_of_field_triple)
  then show "extract_fields w = (A, B, C)"
    unfolding e .
qed

theorem encode_decode_reproduces_word_witness:
  "(0::int) \<le> 10246 \<and> (10246::int) < 2 ^ 32 \<and> extract_fields 10246 = (6, 0, 5)
   \<and> encode 6 0 5 = 10246 \<and> field_triple 6 0 5"
  using encode_decode_reproduces_word [of 10246]
  by (simp add: extract_fields_def COMMAND_MASK_def REGISTER_MASK_def encode_def field_triple_def)

section \<open>The interpreter\<close>

subsection \<open>List accesses\<close>

lemma register_field_range:
  assumes "extract_fields instr = (A, B, C)"
  shows "0 \<le> B" "B < 64"
proof -
  have B: "B = take_bit 6 (drop_bit 5 instr)"
    using assms by (simp add: extract_fields_take_drop)
  show "0 \<le> B" unfolding B by simp
  show "B < 64" unfolding B using take_bit_int_less_exp [of 6 "drop_bit 5 instr"] by simp
qed

lemma getitem_inside: "0 \<le> i \<Longrightarrow> i < int (length xs) \<Longrightarrow> getitem xs i = Inr (xs ! nat i)"
  by (simp add: getitem_def)

lemma setitem_inside:
  "0 \<le> i \<Longrightarrow> i < int (length xs) \<Longrightarrow> setitem xs i v = Inr (xs[nat i := v])"
  by (simp add: setitem_def)

lemma getitem_beyond: "int (length xs) \<le> i \<Longrightarrow> getitem xs i = Inl IndexError"
  by (simp add: getitem_def)

lemma setitem_beyond: "int (length xs) \<le> i \<Longrightarrow> setitem xs i v = Inl IndexError"
  by (simp add: setitem_def)

lemma getitem_error: "getitem xs i = Inl e \<Longrightarrow> e = IndexError"
  by (auto simp add: getitem_def Let_def split: if_splits)

subsection \<open>One instruction\<close>

lemma dispatch_inside:
  assumes "0 \<le> B" "B < 64" "length (register s) = 64"
    and "0 \<le> C" "C < 1024" "length (memory s) = 1024"
  shows "dispatch A B C s =
     Inr (s\<lparr>register :=
               (if A = 6 then (register s)[nat B := C]
                else if A = 8 then (register s)[nat B := memory s ! nat C]
                else if A = 10 then (register s)[nat B := - (memory s ! nat C)]
                else register s),
            memory :=
               (if A = 25 then (memory s)[nat C := register s ! nat B] else memory s)\<rparr>)"
  using assms by (simp add: dispatch_def getitem_inside setitem_inside)

lemma dispatch_beyond:
  assumes "A = 8 \<or> A = 25 \<or> A = 10" "int (length (memory s)) \<le> C"
  shows "dispatch A B C s = Inl IndexError"
  using assms
  by (auto simp add: dispatch_def getitem_beyond setitem_beyond split: sum.splits
      dest: getitem_error)

lemma dispatch_other:
  assumes "A \<noteq> 6" "A \<noteq> 8" "A \<noteq> 25" "A \<noteq> 10"
  shows "dispatch A B C s = Inr s"
  using assms by (simp add: dispatch_def)

lemma step_inside:
  assumes "extract_fields instr = (A, B, C)"
    and "length (register s) = 64" "length (memory s) = 1024"
    and "0 \<le> C" "C < 1024"
  shows "step instr s =
     (None,
      s\<lparr>register :=
           (if A = 6 then (register s)[nat B := C]
            else if A = 8 then (register s)[nat B := memory s ! nat C]
            else if A = 10 then (register s)[nat B := - (memory s ! nat C)]
            else register s),
         memory :=
           (if A = 25 then (memory s)[nat C := register s ! nat B] else memory s),
         result :=
           AList.update B
             (if A = 6 then C
              else if A = 8 then memory s ! nat C
              else if A = 10 then - (memory s ! nat C)
              else register s ! nat B)
             (result s),
         trace := trace s @ [(A, B, C)]\<rparr>)"
proof -
  have B: "0 \<le> B" "B < 64"
    using assms(1) by (rule register_field_range)+
  let ?s1 = "s\<lparr>trace := trace s @ [(A, B, C)]\<rparr>"
  have d: "dispatch A B C ?s1 =
     Inr (?s1\<lparr>register :=
               (if A = 6 then (register ?s1)[nat B := C]
                else if A = 8 then (register ?s1)[nat B := memory ?s1 ! nat C]
                else if A = 10 then (register ?s1)[nat B := - (memory ?s1 ! nat C)]
                else register ?s1),
            memory :=
               (if A = 25 then (memory ?s1)[nat C := register ?s1 ! nat B] else memory ?s1)\<rparr>)"
    using B assms(2-5) by (intro dispatch_inside) simp_all
  show ?thesis
    using B assms(2-5)
    by (simp add: step_def assms(1) d getitem_inside)
qed

text \<open>
  C2. For an instruction whose fields are \<open>(A, B, C)\<close> with \<open>C\<close> within the memory, one
  iteration raises nothing and: opcode 6 stores \<open>C\<close> in register \<open>B\<close>; opcode 8 stores
  \<open>memory[C]\<close> in register \<open>B\<close>; opcode 25 stores register \<open>B\<close> in \<open>memory[C]\<close>; opcode 10
  stores \<open>-memory[C]\<close> in register \<open>B\<close>; any other opcode leaves registers and memory as
  they were. What an opcode does not store to is unchanged.
\<close>

theorem step_per_opcode:
  assumes "extract_fields instr = (A, B, C)"
    and "length (register s) = 64" "length (memory s) = 1024"
    and "0 \<le> C" "C < 1024"
  shows "fst (step instr s) = None
    \<and> (A = 6 \<longrightarrow> register (snd (step instr s)) = (register s)[nat B := C]
                \<and> memory (snd (step instr s)) = memory s)
    \<and> (A = 8 \<longrightarrow> register (snd (step instr s)) = (register s)[nat B := memory s ! nat C]
                \<and> memory (snd (step instr s)) = memory s)
    \<and> (A = 25 \<longrightarrow> memory (snd (step instr s)) = (memory s)[nat C := register s ! nat B]
                \<and> register (snd (step instr s)) = register s)
    \<and> (A = 10 \<longrightarrow> register (snd (step instr s)) = (register s)[nat B := - (memory s ! nat C)]
                \<and> memory (snd (step instr s)) = memory s)
    \<and> (A \<noteq> 6 \<and> A \<noteq> 8 \<and> A \<noteq> 25 \<and> A \<noteq> 10 \<longrightarrow>
          register (snd (step instr s)) = register s \<and> memory (snd (step instr s)) = memory s)"
  by (simp add: step_inside [OF assms])

theorem step_per_opcode_witness:
  "extract_fields 6218 = (10, 2, 3)
   \<and> fst (step 6218 (start_state ((replicate 1024 0)[3 := 7]))) = None
   \<and> register (snd (step 6218 (start_state ((replicate 1024 0)[3 := 7])))) ! 2 = - 7"
proof -
  have f: "extract_fields 6218 = (10, 2, 3)"
    by (simp add: extract_fields_def COMMAND_MASK_def REGISTER_MASK_def)
  show ?thesis
    using step_per_opcode [OF f, of "start_state ((replicate 1024 0)[3 := 7])"]
    by (simp add: f start_state_def)
qed

text \<open>
  C4. For an instruction with opcode 8, 25 or 10 whose operand \<open>C\<close> is at least 1024, the
  size of the memory, the iteration raises \<open>IndexError\<close> from the list access: the index
  is checked by the list before any cell is read or written, registers, memory and result
  are as before, and the loop ends there with the exception.
\<close>

theorem operand_beyond_memory_is_fatal:
  assumes "extract_fields instr = (A, B, C)"
    and "A = 8 \<or> A = 25 \<or> A = 10"
    and "length (memory s) = 1024" "1024 \<le> C"
  shows "step instr s = (Some IndexError, s\<lparr>trace := trace s @ [(A, B, C)]\<rparr>)
       \<and> run (instr # rest) s = (Some IndexError, s\<lparr>trace := trace s @ [(A, B, C)]\<rparr>)"
proof -
  have "dispatch A B C (s\<lparr>trace := trace s @ [(A, B, C)]\<rparr>) = Inl IndexError"
    using assms(2-4) by (intro dispatch_beyond) simp_all
  then have "step instr s = (Some IndexError, s\<lparr>trace := trace s @ [(A, B, C)]\<rparr>)"
    by (simp add: step_def assms(1))
  then show ?thesis by simp
qed

theorem operand_beyond_memory_is_fatal_witness:
  "extract_fields 2097160 = (8, 0, 1024)
   \<and> step 2097160 (start_state memory_init) =
       (Some IndexError, (start_state memory_init)\<lparr>trace := [(8, 0, 1024)]\<rparr>)"
proof -
  have f: "extract_fields 2097160 = (8, 0, 1024)"
    by (simp add: extract_fields_def COMMAND_MASK_def REGISTER_MASK_def)
  show ?thesis
    using operand_beyond_memory_is_fatal [OF f, of "start_state memory_init"]
    by (simp add: f start_state_def memory_init_def)
qed

lemma dispatch_executes:
  assumes "0 \<le> B" "B < 64" "length (register s) = 64"
    and "A = 8 \<or> A = 25 \<or> A = 10 \<longrightarrow> 0 \<le> C \<and> C < int (length (memory s))"
  shows "dispatch A B C s =
     Inr (s\<lparr>register :=
               (if A = 6 then (register s)[nat B := C]
                else if A = 8 then (register s)[nat B := memory s ! nat C]
                else if A = 10 then (register s)[nat B := - (memory s ! nat C)]
                else register s),
            memory :=
               (if A = 25 then (memory s)[nat C := register s ! nat B] else memory s)\<rparr>)"
  using assms by (simp add: dispatch_def getitem_inside setitem_inside)

lemma step_executes:
  assumes "extract_fields instr = (A, B, C)"
    and "length (register s) = 64"
    and "A = 8 \<or> A = 25 \<or> A = 10 \<longrightarrow> 0 \<le> C \<and> C < int (length (memory s))"
  shows "step instr s =
     (None,
      s\<lparr>register :=
           (if A = 6 then (register s)[nat B := C]
            else if A = 8 then (register s)[nat B := memory s ! nat C]
            else if A = 10 then (register s)[nat B := - (memory s ! nat C)]
            else register s),
         memory :=
           (if A = 25 then (memory s)[nat C := register s ! nat B] else memory s),
         result :=
           AList.update B
             (if A = 6 then C
              else if A = 8 then memory s ! nat C
              else if A = 10 then - (memory s ! nat C)
              else register s ! nat B)
             (result s),
         trace := trace s @ [(A, B, C)]\<rparr>)"
proof -
  have B: "0 \<le> B" "B < 64"
    using assms(1) by (rule register_field_range)+
  let ?s1 = "s\<lparr>trace := trace s @ [(A, B, C)]\<rparr>"
  have d: "dispatch A B C ?s1 =
     Inr (?s1\<lparr>register :=
               (if A = 6 then (register ?s1)[nat B := C]
                else if A = 8 then (register ?s1)[nat B := memory ?s1 ! nat C]
                else if A = 10 then (register ?s1)[nat B := - (memory ?s1 ! nat C)]
                else register ?s1),
            memory :=
               (if A = 25 then (memory ?s1)[nat C := register ?s1 ! nat B] else memory ?s1)\<rparr>)"
    using B assms(2,3) by (intro dispatch_executes) simp_all
  show ?thesis
    using B assms(2)
    by (simp add: step_def assms(1) d getitem_inside)
qed

lemma step_records:
  assumes "extract_fields instr = (A, B, C)"
    and "length (register s) = 64"
    and "step instr s = (None, s')"
  shows "result s' = AList.update B (register s' ! nat B) (result s)"
proof -
  have B: "0 \<le> B" "B < 64"
    using assms(1) by (rule register_field_range)+
  obtain s2 where d: "dispatch A B C (s\<lparr>trace := trace s @ [(A, B, C)]\<rparr>) = Inr s2"
    using assms(3) by (cases "dispatch A B C (s\<lparr>trace := trace s @ [(A, B, C)]\<rparr>)")
      (simp_all add: step_def assms(1))
  have len: "length (register s2) = 64"
    using d assms(2)
    by (auto simp add: dispatch_def setitem_def Let_def split: if_splits sum.splits)
  have res: "result s2 = result s"
    using d by (auto simp add: dispatch_def split: if_splits sum.splits)
  have s': "s' = s2\<lparr>result := AList.update B (register s2 ! nat B) (result s2)\<rparr>"
    using assms(3) B len by (simp add: step_def assms(1) d getitem_inside)
  show ?thesis
    by (simp add: s' res)
qed

text \<open>
  C5. An instruction with register field \<open>B\<close> is executed when its list accesses raise
  nothing: always for opcode 6 and for an opcode that is not 8, 25 or 10, and for those
  three when the operand is within the memory. Then the iteration ends without an
  exception, and the entry of \<open>result\<close> for register \<open>B\<close> is the value of \<open>register[B]\<close>
  after the instruction (the constant, the cell, the negated cell, or the unchanged
  register): it replaces an earlier entry for \<open>B\<close>, and the entries of the other registers
  are as before. An opcode that is not 6, 8, 25 or 10 changes neither registers nor memory
  and records the unchanged \<open>register[B]\<close>.
\<close>

theorem result_records_register:
  assumes "extract_fields instr = (A, B, C)"
    and "length (register s) = 64"
  shows "((A = 8 \<or> A = 25 \<or> A = 10 \<longrightarrow> 0 \<le> C \<and> C < int (length (memory s))) \<longrightarrow>
            fst (step instr s) = None
          \<and> register (snd (step instr s)) ! nat B =
              (if A = 6 then C
               else if A = 8 then memory s ! nat C
               else if A = 10 then - (memory s ! nat C)
               else register s ! nat B)
          \<and> result (snd (step instr s)) =
              AList.update B (register (snd (step instr s)) ! nat B) (result s))
       \<and> (\<forall>s'. step instr s = (None, s') \<longrightarrow>
            result s' = AList.update B (register s' ! nat B) (result s)
          \<and> map_of (result s') B = Some (register s' ! nat B)
          \<and> (\<forall>k. k \<noteq> B \<longrightarrow> map_of (result s') k = map_of (result s) k))
       \<and> (A \<noteq> 6 \<and> A \<noteq> 8 \<and> A \<noteq> 25 \<and> A \<noteq> 10 \<longrightarrow>
            step instr s =
              (None, s\<lparr>result := AList.update B (register s ! nat B) (result s),
                       trace := trace s @ [(A, B, C)]\<rparr>))"
proof (intro conjI allI impI)
  have B: "nat B < 64"
    using register_field_range [OF assms(1)] by simp
  {
    assume ok: "A = 8 \<or> A = 25 \<or> A = 10 \<longrightarrow> 0 \<le> C \<and> C < int (length (memory s))"
    note st = step_executes [OF assms ok]
    show "fst (step instr s) = None"
      by (simp add: st)
    show v: "register (snd (step instr s)) ! nat B =
              (if A = 6 then C
               else if A = 8 then memory s ! nat C
               else if A = 10 then - (memory s ! nat C)
               else register s ! nat B)"
      using B assms(2) by (simp add: st)
    show "result (snd (step instr s)) =
              AList.update B (register (snd (step instr s)) ! nat B) (result s)"
      unfolding v by (simp add: st)
  }
  {
    fix s'
    assume st: "step instr s = (None, s')"
    show r: "result s' = AList.update B (register s' ! nat B) (result s)"
      using assms st by (rule step_records)
    show "map_of (result s') B = Some (register s' ! nat B)"
      by (simp add: r update_conv')
    fix k assume "k \<noteq> B"
    then show "map_of (result s') k = map_of (result s) k"
      by (simp add: r update_conv')
  }
  assume o: "A \<noteq> 6 \<and> A \<noteq> 8 \<and> A \<noteq> 25 \<and> A \<noteq> 10"
  then have "A = 8 \<or> A = 25 \<or> A = 10 \<longrightarrow> 0 \<le> C \<and> C < int (length (memory s))"
    by simp
  from step_executes [OF assms this] o
  show "step instr s =
              (None, s\<lparr>result := AList.update B (register s ! nat B) (result s),
                       trace := trace s @ [(A, B, C)]\<rparr>)"
    by simp
qed

theorem result_records_register_witness:
  "extract_fields 10374 = (6, 4, 5)
   \<and> length (register (start_state memory_init)) = 64
   \<and> step 10374 ((start_state memory_init)\<lparr>result := [(4, 9), (5, 1)]\<rparr>) =
       (None, (start_state memory_init)
                \<lparr>register := (replicate 64 0)[4 := 5],
                 result := [(4, 5), (5, 1)], trace := [(6, 4, 5)]\<rparr>)"
proof -
  have f: "extract_fields 10374 = (6, 4, 5)"
    by (simp add: extract_fields_def COMMAND_MASK_def REGISTER_MASK_def)
  have e: "step 10374 ((start_state memory_init)\<lparr>result := [(4, 9), (5, 1)]\<rparr>) =
       (None, (start_state memory_init)
                \<lparr>register := (replicate 64 0)[4 := 5],
                 result := [(4, 5), (5, 1)], trace := [(6, 4, 5)]\<rparr>)"
    by (simp add: step_def f dispatch_def setitem_def getitem_def start_state_def)
  show ?thesis
    using result_records_register [OF f, of "(start_state memory_init)\<lparr>result := [(4, 9), (5, 1)]\<rparr>"] e
    by (simp add: f start_state_def)
qed

subsection \<open>The binary file\<close>

lemma bytes_of_word:
  fixes w :: int
  assumes "0 \<le> w" "w < 4294967296"
  shows "take_bit 8 w + 256 * take_bit 8 (drop_bit 8 w) + 65536 * take_bit 8 (drop_bit 16 w)
         + 16777216 * take_bit 8 (drop_bit 24 w) = w"
proof -
  have a: "w = take_bit 8 w + 256 * drop_bit 8 w"
    using bits_ident [of 8 w] by (simp add: push_bit_eq_mult)
  have b: "drop_bit 8 w = take_bit 8 (drop_bit 8 w) + 256 * drop_bit 16 w"
    using bits_ident [of 8 "drop_bit 8 w"] by (simp add: push_bit_eq_mult drop_bit_drop_bit)
  have c: "drop_bit 16 w = take_bit 8 (drop_bit 16 w) + 256 * drop_bit 24 w"
    using bits_ident [of 8 "drop_bit 16 w"] by (simp add: push_bit_eq_mult drop_bit_drop_bit)
  have "0 \<le> drop_bit 24 w" "drop_bit 24 w < 256"
    using assms by (simp_all add: drop_bit_eq_div)
  then have d: "take_bit 8 (drop_bit 24 w) = drop_bit 24 w"
    by (simp add: take_bit_int_eq_self)
  show ?thesis
    using a b c d by linarith
qed

lemma struct_unpack_pack:
  assumes "struct_pack_I w = Inr b"
  shows "struct_unpack_I b = Inr w" "length b = 4"
proof -
  have r: "0 \<le> w" "w < 4294967296" and b: "b = [word_of_int w, word_of_int (drop_bit 8 w),
                word_of_int (drop_bit 16 w), word_of_int (drop_bit 24 w)]"
    using assms by (auto simp add: struct_pack_I_def split: if_splits)
  show "struct_unpack_I b = Inr w"
    using bytes_of_word [OF r]
    by (simp add: b struct_unpack_I_def uint_word_of_int_eq)
  show "length b = 4" by (simp add: b)
qed

lemma load_instructions_misaligned:
  "length binary_data mod 4 \<noteq> 0 \<Longrightarrow> load_instructions binary_data = Inl struct_error"
proof (induction binary_data rule: load_instructions.induct)
  case (1 binary_data)
  show ?case
  proof (cases "length binary_data < 4")
    case True
    with "1.prems" have "binary_data \<noteq> []" "struct_unpack_I (take 4 binary_data) = Inl struct_error"
      by (auto simp add: struct_unpack_I_def)
    then show ?thesis
      by (subst load_instructions.simps) simp
  next
    case False
    then have ne: "binary_data \<noteq> []" by auto
    obtain w where w: "struct_unpack_I (take 4 binary_data) = Inr w"
      using False by (simp add: struct_unpack_I_def)
    have "length (drop 4 binary_data) mod 4 \<noteq> 0"
      using False "1.prems" by (simp add: mod_diff_eq [symmetric] le_mod_geq)
    then have "load_instructions (drop 4 binary_data) = Inl struct_error"
      using "1.IH" [OF ne w] by simp
    then show ?thesis
      using ne w by (subst load_instructions.simps) simp
  qed
qed

lemma load_instructions_append:
  assumes "struct_pack_I w = Inr b"
  shows "load_instructions (b @ rest) =
         (case load_instructions rest of Inl e \<Rightarrow> Inl e | Inr ws \<Rightarrow> Inr (w # ws))"
proof -
  have u: "struct_unpack_I b = Inr w" and l: "length b = 4"
    using assms by (rule struct_unpack_pack)+
  from l have "b \<noteq> []" by auto
  then show ?thesis
    by (subst load_instructions.simps) (simp add: l u)
qed

lemma load_instructions_binary_of:
  assumes "\<forall>w \<in> set ws. 0 \<le> w \<and> w < 4294967296"
  shows "load_instructions (binary_of ws) = Inr ws \<and> (ws \<noteq> [] \<longrightarrow> binary_of ws \<noteq> [])"
  using assms
proof (induction ws)
  case Nil
  show ?case
    by (subst load_instructions.simps) (simp add: binary_of_def)
next
  case (Cons w ws)
  then obtain b where b: "struct_pack_I w = Inr b"
    by (auto simp add: struct_pack_I_def)
  have bo: "binary_of (w # ws) = b @ binary_of ws"
    by (simp add: binary_of_def b split: prod.splits)
  have "length b = 4" using b by (rule struct_unpack_pack)
  then have "b \<noteq> []" by auto
  with Cons show ?case
    by (simp add: bo load_instructions_append [OF b])
qed

lemma encode_range:
  assumes "field_triple A B C"
  shows "0 \<le> encode A B C" "encode A B C < 4294967296"
proof -
  have A: "0 \<le> A" "A < 2 ^ 32" and B: "0 \<le> push_bit 5 B" "push_bit 5 B < 2 ^ 32"
    and C: "0 \<le> push_bit 11 C" "push_bit 11 C < 2 ^ 32"
    using assms by (simp_all add: field_triple_def push_bit_eq_mult)
  show "0 \<le> encode A B C"
    using A B C by (simp add: encode_def)
  have 1: "push_bit 11 C OR push_bit 5 B < 2 ^ 32"
    by (rule OR_upper [OF C(1) C(2) B(2)])
  have 2: "0 \<le> push_bit 11 C OR push_bit 5 B"
    using B(1) C(1) by (simp only: or_nonnegative_int_iff simp_thms)
  have "(push_bit 11 C OR push_bit 5 B) OR A < 2 ^ 32"
    by (rule OR_upper [OF 2 1 A(2)])
  then show "encode A B C < 4294967296"
    by (simp add: encode_def or.assoc)
qed

lemma interpreter_loaded:
  assumes "0 \<le> start_address" "start_address < int (length mem)"
    and "0 \<le> end_address" "end_address \<le> int (length mem)"
    and "binary_data \<noteq> []" "load_instructions binary_data = Inr instructions"
  shows "interpreter mem (Some binary_data) start_address end_address =
    (case run instructions (start_state mem) of
       (Some e, s) \<Rightarrow> \<lparr>outcome = Inl e, memory_after = memory s, dispatched = trace s\<rparr>
     | (None, s) \<Rightarrow>
         \<lparr>outcome = Inr (result s, memory_dump (memory s) start_address end_address),
          memory_after = memory s, dispatched = trace s\<rparr>)"
  using assms by (simp add: interpreter_def)

lemma interpreter_program:
  assumes "length mem = 1024"
    and "0 \<le> start_address" "start_address < 1024" "0 \<le> end_address" "end_address \<le> 1024"
    and "instructions \<noteq> []" "\<forall>w \<in> set instructions. 0 \<le> w \<and> w < 4294967296"
  shows "interpreter mem (Some (binary_of instructions)) start_address end_address =
    (case run instructions (start_state mem) of
       (Some e, s) \<Rightarrow> \<lparr>outcome = Inl e, memory_after = memory s, dispatched = trace s\<rparr>
     | (None, s) \<Rightarrow>
         \<lparr>outcome = Inr (result s, memory_dump (memory s) start_address end_address),
          memory_after = memory s, dispatched = trace s\<rparr>)"
proof -
  have "load_instructions (binary_of instructions) = Inr instructions"
       "binary_of instructions \<noteq> []"
    using load_instructions_binary_of [OF assms(7)] assms(6) by simp_all
  then show ?thesis
    using assms(1-5) by (intro interpreter_loaded) simp_all
qed

subsection \<open>The checks before the loop\<close>

text \<open>
  C8. When \<open>start_address\<close> is outside \<open>[0, 1024)\<close> or \<open>end_address\<close> is outside
  \<open>[0, 1024]\<close>, \<open>interpreter\<close> raises the \<open>ValueError\<close> of the range check whatever the
  binary file is, also when it does not exist: the check comes before the file is read.
  No instruction is dispatched and the memory is untouched. The range 1020 to 2000 is
  such a range.
\<close>

theorem dump_range_checked_first:
  assumes "length mem = 1024"
    and "\<not> (0 \<le> start_address \<and> start_address < 1024)
         \<or> \<not> (0 \<le> end_address \<and> end_address \<le> 1024)"
  shows "interpreter mem binary_input start_address end_address =
     \<lparr>outcome = Inl (ValueError Addresses_must_be_in_range),
      memory_after = mem, dispatched = []\<rparr>"
  using assms by (auto simp add: interpreter_def)

theorem dump_range_checked_first_witness:
  "length memory_init = 1024 \<and> \<not> (0 \<le> (2000::int) \<and> (2000::int) \<le> 1024)
   \<and> interpreter memory_init None 1020 2000 =
     \<lparr>outcome = Inl (ValueError Addresses_must_be_in_range),
      memory_after = memory_init, dispatched = []\<rparr>"
  using dump_range_checked_first [of memory_init 1020 2000 None]
  by (simp add: memory_init_def)

text \<open>
  C6. For a binary file whose length is not a multiple of 4, \<open>interpreter\<close> ends with an
  exception, dispatches no instruction and leaves the memory untouched; when the dump
  range is valid the exception is the \<open>struct.error\<close> of unpacking the short last slice,
  raised while the words are loaded, before the loop. The bytes before the fragment are
  not run.
\<close>

theorem misaligned_binary_is_fatal:
  assumes "length binary_data mod 4 \<noteq> 0"
  shows "(\<exists>e. outcome (interpreter mem (Some binary_data) start_address end_address) = Inl e)
     \<and> memory_after (interpreter mem (Some binary_data) start_address end_address) = mem
     \<and> dispatched (interpreter mem (Some binary_data) start_address end_address) = []
     \<and> (0 \<le> start_address \<and> start_address < int (length mem)
        \<and> 0 \<le> end_address \<and> end_address \<le> int (length mem) \<longrightarrow>
        outcome (interpreter mem (Some binary_data) start_address end_address)
          = Inl struct_error)"
proof -
  have "binary_data \<noteq> []" using assms by auto
  moreover have "load_instructions binary_data = Inl struct_error"
    using assms by (rule load_instructions_misaligned)
  ultimately show ?thesis
    by (simp add: interpreter_def)
qed

theorem misaligned_binary_is_fatal_witness:
  "length [6, 40, 0, 0, 25, 80 :: byte] mod 4 \<noteq> 0
   \<and> interpreter memory_init (Some [6, 40, 0, 0, 25, 80]) 0 16 =
       \<lparr>outcome = Inl struct_error, memory_after = memory_init, dispatched = []\<rparr>"
  using misaligned_binary_is_fatal [of "[6, 40, 0, 0, 25, 80]" memory_init 0 16]
  by (simp add: memory_init_def)

subsection \<open>Registers and memory at the start of a call\<close>

text \<open>
  C3, as the specification states it: every call of \<open>interpreter\<close> starts with all memory
  cells zero and nothing written by one run is seen by the next. The memory is the
  module's list, which a call does not reset: after a run that stores 5 in cell 10, a
  second run in the same process that only reads cell 10 into register 0 reports 5.
\<close>

theorem memory_fresh_per_run_counterexample:
  "memory_after
     (interpreter memory_init (Some (binary_of [encode 6 0 5, encode 25 0 10])) 0 0) ! 10 = 5
   \<and> outcome (interpreter
        (memory_after
           (interpreter memory_init (Some (binary_of [encode 6 0 5, encode 25 0 10])) 0 0))
        (Some (binary_of [encode 8 0 10])) 0 0) = Inr ([(0, 5)], [])"
  by code_simp

text \<open>
  C3, amended. Every call of \<open>interpreter\<close> starts with all 64 registers zero. The 1024
  memory cells are zero when the module is loaded; the memory is one list of the module
  that every call in the process reads and writes, so a call starts with the memory as
  the previous call left it: an instruction that only names register \<open>B\<close> reports 0 for
  it whatever the memory holds, a read of cell \<open>C\<close> as first instruction reports what the
  cell held before the call, the dump shows the cells as they were, and a value stored
  in a cell is in the memory the call leaves behind.
\<close>

theorem registers_fresh_memory_shared:
  assumes "length mem = 1024"
    and "0 \<le> start_address" "start_address < 1024" "0 \<le> end_address" "end_address \<le> 1024"
    and "0 \<le> B" "B < 64" "0 \<le> C" "C < 1024" "0 \<le> v" "v < 1024"
  shows "length memory_init = 1024 \<and> (\<forall>a < 1024. memory_init ! a = 0)
    \<and> outcome (interpreter mem (Some (binary_of [encode 0 B 0])) start_address end_address)
        = Inr ([(B, 0)], memory_dump mem start_address end_address)
    \<and> outcome (interpreter mem (Some (binary_of [encode 8 B C])) start_address end_address)
        = Inr ([(B, mem ! nat C)], memory_dump mem start_address end_address)
    \<and> memory_after
         (interpreter mem (Some (binary_of [encode 6 B v, encode 25 B C])) start_address end_address)
        = mem[nat C := v]"
proof (intro conjI)
  show "length memory_init = 1024" "\<forall>a < 1024. memory_init ! a = 0"
    by (simp_all add: memory_init_def)
  have len: "length (register (start_state mem)) = 64" "length (memory (start_state mem)) = 1024"
    using assms(1) by (simp_all add: start_state_def)
  have t0: "field_triple 0 B 0" and t8: "field_triple 8 B C"
    and t6: "field_triple 6 B v" and t25: "field_triple 25 B C"
    using assms by (simp_all add: field_triple_def)
  note f0 = extract_fields_of_field_triple [OF t0]
    and f8 = extract_fields_of_field_triple [OF t8]
    and f6 = extract_fields_of_field_triple [OF t6]
    and f25 = extract_fields_of_field_triple [OF t25]
  have B: "nat B < 64" using assms(6,7) by simp
  have ms: "memory (start_state mem) = mem"
    by (simp add: start_state_def)
  have s0: "step (encode 0 B 0) (start_state mem) =
      (None, (start_state mem)\<lparr>result := [(B, 0)], trace := [(0, B, 0)]\<rparr>)"
    using B step_inside [OF f0 len] by (simp add: start_state_def)
  have "interpreter mem (Some (binary_of [encode 0 B 0])) start_address end_address =
      (case run [encode 0 B 0] (start_state mem) of
       (Some e, s) \<Rightarrow> \<lparr>outcome = Inl e, memory_after = memory s, dispatched = trace s\<rparr>
     | (None, s) \<Rightarrow>
         \<lparr>outcome = Inr (result s, memory_dump (memory s) start_address end_address),
          memory_after = memory s, dispatched = trace s\<rparr>)"
    using assms(1-5) encode_range [OF t0] by (intro interpreter_program) simp_all
  then show "outcome (interpreter mem (Some (binary_of [encode 0 B 0])) start_address end_address)
        = Inr ([(B, 0)], memory_dump mem start_address end_address)"
    by (simp add: s0 ms)
  have s8: "step (encode 8 B C) (start_state mem) =
      (None, (start_state mem)\<lparr>register := (replicate 64 0)[nat B := mem ! nat C],
          result := [(B, mem ! nat C)], trace := [(8, B, C)]\<rparr>)"
    using B step_inside [OF f8 len assms(8,9)] by (simp add: start_state_def)
  have "interpreter mem (Some (binary_of [encode 8 B C])) start_address end_address =
      (case run [encode 8 B C] (start_state mem) of
       (Some e, s) \<Rightarrow> \<lparr>outcome = Inl e, memory_after = memory s, dispatched = trace s\<rparr>
     | (None, s) \<Rightarrow>
         \<lparr>outcome = Inr (result s, memory_dump (memory s) start_address end_address),
          memory_after = memory s, dispatched = trace s\<rparr>)"
    using assms(1-5) encode_range [OF t8] by (intro interpreter_program) simp_all
  then show "outcome (interpreter mem (Some (binary_of [encode 8 B C])) start_address end_address)
        = Inr ([(B, mem ! nat C)], memory_dump mem start_address end_address)"
    by (simp add: s8 ms)
  define s1 where "s1 = (start_state mem)\<lparr>register := (replicate 64 0)[nat B := v],
          result := [(B, v)], trace := [(6, B, v)]\<rparr>"
  have s6: "step (encode 6 B v) (start_state mem) = (None, s1)"
    using B step_inside [OF f6 len assms(10,11)] by (simp add: start_state_def s1_def)
  have len1: "length (register s1) = 64" "length (memory s1) = 1024"
    using assms(1) by (simp_all add: s1_def start_state_def)
  have m25: "memory (snd (step (encode 25 B C) s1)) = mem[nat C := v]"
       "fst (step (encode 25 B C) s1) = None"
    using B step_inside [OF f25 len1 assms(8,9)] by (simp_all add: s1_def start_state_def)
  have "interpreter mem (Some (binary_of [encode 6 B v, encode 25 B C])) start_address end_address =
      (case run [encode 6 B v, encode 25 B C] (start_state mem) of
       (Some e, s) \<Rightarrow> \<lparr>outcome = Inl e, memory_after = memory s, dispatched = trace s\<rparr>
     | (None, s) \<Rightarrow>
         \<lparr>outcome = Inr (result s, memory_dump (memory s) start_address end_address),
          memory_after = memory s, dispatched = trace s\<rparr>)"
    using assms(1-5) encode_range [OF t6] encode_range [OF t25]
    by (intro interpreter_program) simp_all
  then show "memory_after
         (interpreter mem (Some (binary_of [encode 6 B v, encode 25 B C])) start_address end_address)
        = mem[nat C := v]"
    using m25 by (cases "step (encode 25 B C) s1") (simp add: s6)
qed

theorem registers_fresh_memory_shared_witness:
  "length (memory_init[7 := 3]) = 1024
   \<and> outcome (interpreter (memory_init[7 := 3]) (Some (binary_of [encode 8 2 7])) 6 8)
       = Inr ([(2, 3)], [(6, 0), (7, 3)])
   \<and> outcome (interpreter (memory_init[7 := 3]) (Some (binary_of [encode 0 2 0])) 6 8)
       = Inr ([(2, 0)], [(6, 0), (7, 3)])"
  using registers_fresh_memory_shared [of "memory_init[7 := 3]" 6 8 2 7 0]
  by (simp add: memory_init_def memory_dump_def upto.simps)

section \<open>The assembler\<close>

subsection \<open>The numerals that are converted\<close>









subsection \<open>Lines\<close>









end
